theory Spec2Isabelle
  imports Complex_Main "HOL-Library.Word" "HOL-Library.Multiset"
begin

unbundle bit_operations_syntax

section \<open>Fog of war: the bitmask and the edit of a rectangle\<close>

text \<open>
  The tabletop view keeps, for every map, a fog-of-war bitmask: a JavaScript array of
  numbers, each used as a 32-bit word. Cell \<open>(x, y)\<close> of a fog grid that is \<open>fogWidth\<close>
  cells wide has the texture index \<open>x + y * fogWidth\<close>; its bit is bit
  \<open>textureIndex & 0x1f\<close> of word \<open>textureIndex >> 5\<close>, set when the cell is revealed.

  Coordinates are JavaScript numbers. They are modelled as real numbers (rounding of
  floating-point arithmetic, infinities and NaN are left out), and the grid dimensions
  \<^verbatim>\<open>fogWidth\<close>, \<^verbatim>\<open>fogHeight\<close>, which the data model declares to be whole numbers, as
  integers. A \<^verbatim>\<open>THREE.Vector3\<close> is a record of its three components.
\<close>

record vector3 =
  vecX :: real
  vecY :: real
  vecZ :: real

text \<open>The exceptions the modelled code can raise.\<close>

datatype jsError = RangeError | TypeError

text \<open>
  A bitmask array is the list of its elements. The bitwise operators turn every operand
  into a signed 32-bit integer, so an element is a 32-bit word (\<open>- 1\<close> is the word with all
  bits set); \<open>None\<close> is an element that holds no number: an empty slot of a sparse array,
  \<^verbatim>\<open>undefined\<close> or \<^verbatim>\<open>null\<close>, all of which the bitwise operators read as 0.
\<close>

type_synonym fogArray = "32 word option list"

text \<open>\<^verbatim>\<open>ToInt32\<close>, which \<^verbatim>\<open>>>\<close> and \<^verbatim>\<open>&\<close> apply to their left operand.\<close>

definition toInt32 :: "int \<Rightarrow> int" where
  "toInt32 n = (n + 2 ^ 31) mod 2 ^ 32 - 2 ^ 31"

text \<open>
  \<^verbatim>\<open>clamp(number, lower, upper)\<close> is imported from lodash. The comparisons are those of
  lodash's \<^verbatim>\<open>baseClamp\<close>: first against the upper bound, then against the lower one.
\<close>

definition clamp :: "int \<Rightarrow> int \<Rightarrow> int \<Rightarrow> int" where
  "clamp number lower upper =
     (let n = (if number \<le> upper then number else upper)
      in if n \<ge> lower then n else lower)"

text \<open>
  Reading \<^verbatim>\<open>fogOfWar[i]\<close> as an operand of a bitwise operator: an index outside the
  array yields \<^verbatim>\<open>undefined\<close>, which is read as 0.
\<close>

definition getWord :: "fogArray \<Rightarrow> int \<Rightarrow> 32 word" where
  "getWord a i =
     (if 0 \<le> i \<and> i < int (length a)
      then (case a ! nat i of None \<Rightarrow> 0 | Some w \<Rightarrow> w)
      else 0)"

text \<open>
  The assignment \<^verbatim>\<open>fogOfWar[i] = v\<close>. JavaScript never raises here: an index at or beyond
  the length extends the array, leaving empty slots in between; a negative index creates
  a property that is no element of the array (it does not change the length, it is
  dropped by a spread copy and by serialisation), so the elements stay as they are.
\<close>

definition setWord :: "fogArray \<Rightarrow> int \<Rightarrow> 32 word \<Rightarrow> fogArray" where
  "setWord a i v =
     (if i < 0 then a
      else if i < int (length a) then a[nat i := Some v]
      else a @ replicate (nat i - length a) None @ [Some v])"

text \<open>\<^verbatim>\<open>const bitmaskIndex = textureIndex >> 5;\<close>\<close>

definition bitmaskIndex :: "int \<Rightarrow> int" where
  "bitmaskIndex textureIndex = toInt32 textureIndex div 32"

text \<open>
  \<^verbatim>\<open>const mask = 1 << (textureIndex & 0x1f);\<close> The name has a prime, as \<open>mask\<close> is a
  constant of the word library.
\<close>

definition mask' :: "int \<Rightarrow> 32 word" where
  "mask' textureIndex = push_bit (nat (toInt32 textureIndex mod 32)) 1"

text \<open>
  The three branches on \<^verbatim>\<open>reveal\<close>, a \<^verbatim>\<open>boolean | null\<close>: \<open>None\<close> is \<^verbatim>\<open>null\<close> and toggles
  (\<^verbatim>\<open>^=\<close>), \<open>Some True\<close> reveals (\<^verbatim>\<open>|=\<close>), \<open>Some False\<close> covers (\<^verbatim>\<open>&= ~mask\<close>).
\<close>

definition applyMask :: "bool option \<Rightarrow> 32 word \<Rightarrow> 32 word \<Rightarrow> 32 word" where
  "applyMask reveal m w =
     (case reveal of
        None \<Rightarrow> w XOR m
      | Some True \<Rightarrow> w OR m
      | Some False \<Rightarrow> w AND NOT m)"

text \<open>The body of the inner loop, for the cell with the given texture index.\<close>

definition editCell :: "bool option \<Rightarrow> int \<Rightarrow> fogArray \<Rightarrow> fogArray" where
  "editCell reveal textureIndex fogOfWar =
     setWord fogOfWar (bitmaskIndex textureIndex)
       (applyMask reveal (mask' textureIndex) (getWord fogOfWar (bitmaskIndex textureIndex)))"

text \<open>
  The two nested loops
  \<^verbatim>\<open>for (let y = startY; y <= endY; ++y) for (let x = startX; x <= endX; ++x)\<close>.
\<close>

definition fogLoop ::
  "bool option \<Rightarrow> int \<Rightarrow> int \<Rightarrow> int \<Rightarrow> int \<Rightarrow> int \<Rightarrow> fogArray \<Rightarrow> fogArray" where
  "fogLoop reveal fogWidth startX startY endX endY fogOfWar =
     fold (\<lambda>y. fold (\<lambda>x. editCell reveal (x + y * fogWidth)) [startX..endX])
       [startY..endY] fogOfWar"

text \<open>
  The cell bounds: \<^verbatim>\<open>fogCentre\<close> is added to both vectors, then
  \<^verbatim>\<open>startX = clamp(Math.floor(Math.min(startPos.x, endPos.x) + 0.5), 0, fogWidth)\<close>,
  \<^verbatim>\<open>endX = clamp(Math.floor(Math.max(startPos.x, endPos.x) - 0.5), 0, fogWidth)\<close>, and
  the same on the z axis with \<^verbatim>\<open>fogHeight\<close>.
\<close>

definition cellBounds :: "int \<Rightarrow> int \<Rightarrow> vector3 \<Rightarrow> vector3 \<Rightarrow> int \<times> int \<times> int \<times> int" where
  "cellBounds fogWidth fogHeight startPos endPos =
     (let sx = vecX startPos + of_int fogWidth / 2;
          sz = vecZ startPos + of_int fogHeight / 2;
          ex = vecX endPos + of_int fogWidth / 2;
          ez = vecZ endPos + of_int fogHeight / 2;
          startX = clamp \<lfloor>min sx ex + 1 / 2\<rfloor> 0 fogWidth;
          startY = clamp \<lfloor>min sz ez + 1 / 2\<rfloor> 0 fogHeight;
          endX = clamp \<lfloor>max sx ex - 1 / 2\<rfloor> 0 fogWidth;
          endY = clamp \<lfloor>max sz ez - 1 / 2\<rfloor> 0 fogHeight
      in (startX, startY, endX, endY))"

text \<open>
  \<^verbatim>\<open>new Array(Math.ceil(fogWidth * fogHeight / 32.0)).fill(-1)\<close>. The constructor raises
  a \<^verbatim>\<open>RangeError\<close> for a length that is negative or not below \<open>2 ^ 32\<close>.
\<close>

definition newFogArray :: "int \<Rightarrow> int \<Rightarrow> jsError + fogArray" where
  "newFogArray fogWidth fogHeight =
     (let n = \<lceil>of_int (fogWidth * fogHeight) / (32 :: real)\<rceil>
      in if n < 0 \<or> 2 ^ 32 \<le> n then Inl RangeError
         else Inr (replicate (nat n) (Some (- 1))))"

text \<open>
  \<^verbatim>\<open>changeFogOfWarBitmask\<close>, from the point where the map and the two vectors returned by
  \<^verbatim>\<open>getMapGridRoundedVectors\<close> are at hand: \<open>mapFogOfWar\<close> is \<^verbatim>\<open>map.fogOfWar\<close> (\<open>None\<close>
  when the map has no bitmask yet; an array, even an empty one, is truthy), and
  \<open>startPos\<close>, \<open>endPos\<close> are the two map-local vectors. The result is the array handed to
  \<^verbatim>\<open>updateMapFogOfWarAction\<close>.
\<close>

definition changeFogOfWarBitmask ::
  "bool option \<Rightarrow> fogArray option \<Rightarrow> int \<Rightarrow> int \<Rightarrow> vector3 \<Rightarrow> vector3
     \<Rightarrow> jsError + fogArray" where
  "changeFogOfWarBitmask reveal mapFogOfWar fogWidth fogHeight startPos endPos =
     (case cellBounds fogWidth fogHeight startPos endPos of
        (startX, startY, endX, endY) \<Rightarrow>
          (case (case mapFogOfWar of
                   Some b \<Rightarrow> Inr b
                 | None \<Rightarrow> newFogArray fogWidth fogHeight) of
             Inl e \<Rightarrow> Inl e
           | Inr fogOfWar \<Rightarrow>
               Inr (fogLoop reveal fogWidth startX startY endX endY fogOfWar)))"

subsection \<open>The same function over a store of arrays\<close>

text \<open>
  To speak about which array object is written, the arrays live in a store and are
  referred to by their address (the position in the store). \<^verbatim>\<open>[...map.fogOfWar]\<close> and
  \<^verbatim>\<open>new Array(...).fill(-1)\<close> allocate a new array at the next free address, and every
  \<^verbatim>\<open>fogOfWar[bitmaskIndex] op= mask\<close> of the loop reads and writes the array the local
  variable \<^verbatim>\<open>fogOfWar\<close> refers to.
\<close>

type_synonym store = "fogArray list"

definition editCellAt :: "bool option \<Rightarrow> nat \<Rightarrow> int \<Rightarrow> store \<Rightarrow> store" where
  "editCellAt reveal fogOfWar textureIndex st =
     st[fogOfWar := editCell reveal textureIndex (st ! fogOfWar)]"

definition changeFogOfWarBitmaskStore ::
  "bool option \<Rightarrow> store \<Rightarrow> nat option \<Rightarrow> int \<Rightarrow> int \<Rightarrow> vector3 \<Rightarrow> vector3
     \<Rightarrow> jsError + store \<times> nat" where
  "changeFogOfWarBitmaskStore reveal st mapFogOfWar fogWidth fogHeight startPos endPos =
     (case cellBounds fogWidth fogHeight startPos endPos of
        (startX, startY, endX, endY) \<Rightarrow>
          (case (case mapFogOfWar of
                   Some r \<Rightarrow> Inr (st ! r)
                 | None \<Rightarrow> newFogArray fogWidth fogHeight) of
             Inl e \<Rightarrow> Inl e
           | Inr fresh \<Rightarrow>
               (let fogOfWar = length st;
                    st1 = st @ [fresh]
                in Inr (fold (\<lambda>y. fold (\<lambda>x. editCellAt reveal fogOfWar (x + y * fogWidth))
                                 [startX..endX])
                          [startY..endY] st1,
                        fogOfWar))))"

subsection \<open>Notions used in the proofs\<close>

text \<open>
  The element of an array at a position, \<open>None\<close> beyond its end; the word an element is
  read as; the least length an array must have to hold the word of a texture index; the
  masks a list of texture indices applies to one word; and the texture indices the two
  loops visit, in order.
\<close>

definition slot :: "fogArray \<Rightarrow> nat \<Rightarrow> 32 word option" where
  "slot a j = (if j < length a then a ! j else None)"

definition wordOf :: "32 word option \<Rightarrow> 32 word" where
  "wordOf s = (case s of None \<Rightarrow> 0 | Some w \<Rightarrow> w)"

definition wordExtent :: "int \<Rightarrow> nat" where
  "wordExtent t = (if bitmaskIndex t < 0 then 0 else nat (bitmaskIndex t) + 1)"

primrec extent :: "int list \<Rightarrow> nat" where
  "extent [] = 0"
| "extent (t # ts) = max (wordExtent t) (extent ts)"

definition masksAt :: "nat \<Rightarrow> int list \<Rightarrow> 32 word list" where
  "masksAt j ts = map mask' (filter (\<lambda>t. bitmaskIndex t = int j) ts)"

definition cells :: "int \<Rightarrow> int \<Rightarrow> int \<Rightarrow> int \<Rightarrow> int \<Rightarrow> int list" where
  "cells fogWidth startX startY endX endY =
     concat (map (\<lambda>y. map (\<lambda>x. x + y * fogWidth) [startX..endX]) [startY..endY])"

section \<open>Rounding a drag outward to the grid\<close>

text \<open>
  \<^verbatim>\<open>roundVectors(start, end)\<close> rounds the x and z components of two map-local points in
  place; \<^verbatim>\<open>getMapGridRoundedVectors\<close> calls it on the two drag points after it has added
  the alignment offset to both. The function here returns the two vectors as they are
  after the call. \<^verbatim>\<open>Math.floor\<close> and \<^verbatim>\<open>Math.ceil\<close> are the floor and the ceiling of a
  real, and the constant \<^verbatim>\<open>0.01\<close> is \<open>1 / 100\<close>.
\<close>

definition roundVectors :: "vector3 \<Rightarrow> vector3 \<Rightarrow> vector3 \<times> vector3" where
  "roundVectors start end =
     (let (start1, end1) =
            (if vecX start \<le> vecX end
             then (start\<lparr>vecX := of_int \<lfloor>vecX start\<rfloor>\<rparr>,
                   end\<lparr>vecX := of_int \<lceil>vecX end\<rceil> - 1 / 100\<rparr>)
             else (start\<lparr>vecX := of_int \<lceil>vecX start\<rceil> - 1 / 100\<rparr>,
                   end\<lparr>vecX := of_int \<lfloor>vecX end\<rfloor>\<rparr>))
      in if vecZ start1 \<le> vecZ end1
         then (start1\<lparr>vecZ := of_int \<lfloor>vecZ start1\<rfloor>\<rparr>,
               end1\<lparr>vecZ := of_int \<lceil>vecZ end1\<rceil> - 1 / 100\<rparr>)
         else (start1\<lparr>vecZ := of_int \<lceil>vecZ start1\<rceil> - 1 / 100\<rparr>,
               end1\<lparr>vecZ := of_int \<lfloor>vecZ end1\<rfloor>\<rparr>))"

section \<open>The fog-of-war drag rectangle and the auto-pan timer\<close>

text \<open>
  The part of the component state the drag uses: the rectangle being dragged (with the
  screen position of the pointer), the handle of the auto-pan interval timer and the
  camera. A \<^verbatim>\<open>THREE.Vector2\<close> is a record of its two components. A timer handle records
  the period, in milliseconds, that \<^verbatim>\<open>setInterval\<close> was called with; the handler is always
  \<^verbatim>\<open>autoPanForFogOfWarRect\<close>. The camera type is a parameter.
\<close>

record vector2 =
  posX :: real
  posY :: real

record fogRect =
  mapId :: string
  startPos :: vector3
  endPos :: vector3
  colour :: string
  position :: vector2
  showButtons :: bool










section \<open>The file-index reducer\<close>

text \<open>
  The metadata of a file, as far as the reducers read it: its id (the field \<open>id'\<close>), its
  name and the ids of its parent folders, which may be absent. The three parts of the state are JavaScript
  objects used as dictionaries.
\<close>

record DriveMetadata =
  id' :: string
  name :: string
  parents :: "string list option"

type_synonym DriveMetadataReducerType = "string \<rightharpoonup> DriveMetadata"
type_synonym ChildrenReducerType = "string \<rightharpoonup> string list"
type_synonym RootsReducerType = "string \<rightharpoonup> string"

record FileIndexReducerType =
  driveMetadata :: DriveMetadataReducerType
  children :: ChildrenReducerType
  roots :: RootsReducerType

text \<open>
  The actions. A remove action carries the id of the file and, optionally, its parents;
  any action of another type is \<open>OTHER_FILE_ACTION\<close>.
\<close>

datatype FileIndexActionType =
    ADD_FILES_ACTION "DriveMetadata list"
  | ADD_ROOT_FILES_ACTION "DriveMetadata list"
  | REMOVE_FILE_ACTION string "string list option"
  | UPDATE_FILE_ACTION DriveMetadata
  | OTHER_FILE_ACTION

text \<open>
  lodash's \<^verbatim>\<open>without(array, ...values)\<close>: the elements of the array that are none of the
  values; an array that is \<^verbatim>\<open>undefined\<close> counts as empty, which is also what
  \<^verbatim>\<open>x || []\<close> makes of it.
\<close>

definition orEmpty :: "'a list option \<Rightarrow> 'a list" where
  "orEmpty array = (case array of None \<Rightarrow> [] | Some xs \<Rightarrow> xs)"

definition without :: "'a list option \<Rightarrow> 'a list \<Rightarrow> 'a list" where
  "without array values = filter (\<lambda>x. x \<notin> set values) (orEmpty array)"

definition driveMetadataReducer ::
  "DriveMetadataReducerType \<Rightarrow> FileIndexActionType \<Rightarrow> DriveMetadataReducerType" where
  "driveMetadataReducer state action =
     (case action of
        ADD_FILES_ACTION files \<Rightarrow> fold (\<lambda>file all. all(id' file \<mapsto> file)) files state
      | ADD_ROOT_FILES_ACTION files \<Rightarrow> fold (\<lambda>file all. all(id' file \<mapsto> file)) files state
      | REMOVE_FILE_ACTION fileId fileParents \<Rightarrow> state(fileId := None)
      | UPDATE_FILE_ACTION metadata \<Rightarrow> state(id' metadata \<mapsto> metadata)
      | OTHER_FILE_ACTION \<Rightarrow> state)"

text \<open>The callback of \<^verbatim>\<open>reduce\<close> in the add branch of the children reducer.\<close>

definition addFileToParents :: "DriveMetadata \<Rightarrow> ChildrenReducerType \<Rightarrow> ChildrenReducerType" where
  "addFileToParents file result =
     fold (\<lambda>parent result.
             (let previous = orEmpty (result parent)
              in if id' file \<notin> set previous
                 then result(parent \<mapsto> previous @ [id' file])
                 else result))
       (orEmpty (parents file)) result"

text \<open>
  The callback of \<^verbatim>\<open>reduce\<close> in the update branch: \<open>nextState\<close> starts as \<^verbatim>\<open>undefined\<close>
  and becomes a copy of the state at the first parent that lacks the file. The test
  reads the state the reducer was called with, not \<open>nextState\<close>.
\<close>

definition addUpdatedFileToParent ::
  "ChildrenReducerType \<Rightarrow> string \<Rightarrow> string \<Rightarrow> ChildrenReducerType option
     \<Rightarrow> ChildrenReducerType option" where
  "addUpdatedFileToParent state fileId parentId nextState =
     (if (case state parentId of None \<Rightarrow> True | Some c \<Rightarrow> fileId \<notin> set c)
      then (let nextState1 = (case nextState of None \<Rightarrow> state | Some n \<Rightarrow> n);
                previous = orEmpty (nextState1 parentId)
            in Some (nextState1(parentId \<mapsto> previous @ [fileId])))
      else nextState)"

definition childrenReducer ::
  "ChildrenReducerType \<Rightarrow> FileIndexActionType \<Rightarrow> ChildrenReducerType" where
  "childrenReducer state action =
     (case action of
        ADD_FILES_ACTION files \<Rightarrow> fold addFileToParents files state
      | ADD_ROOT_FILES_ACTION files \<Rightarrow> fold addFileToParents files state
      | UPDATE_FILE_ACTION metadata \<Rightarrow>
          (case fold (addUpdatedFileToParent state (id' metadata))
                  (orEmpty (parents metadata)) None of
             None \<Rightarrow> state
           | Some nextState \<Rightarrow> nextState)
      | REMOVE_FILE_ACTION fileId fileParents \<Rightarrow>
          fold (\<lambda>parent result. result(parent \<mapsto> without (result parent) [fileId]))
            (orEmpty fileParents) (state(fileId := None))
      | OTHER_FILE_ACTION \<Rightarrow> state)"

definition rootsReducer :: "RootsReducerType \<Rightarrow> FileIndexActionType \<Rightarrow> RootsReducerType" where
  "rootsReducer state action =
     (case action of
        ADD_ROOT_FILES_ACTION files \<Rightarrow>
          fold (\<lambda>file result. result(name file \<mapsto> id' file)) files state
      | _ \<Rightarrow> state)"

text \<open>
  \<^verbatim>\<open>combineReducers\<close> runs each reducer on its part of the state. With no state
  (\<^verbatim>\<open>undefined\<close>) every reducer starts from its default: the metadata of the tutorial,
  built outside the files at hand and a parameter here, and empty objects.
\<close>

definition combinedFileIndexReducer ::
  "DriveMetadataReducerType \<Rightarrow> FileIndexReducerType option \<Rightarrow> FileIndexActionType
     \<Rightarrow> FileIndexReducerType" where
  "combinedFileIndexReducer buildTutorialMetadata state action =
     \<lparr>driveMetadata =
        driveMetadataReducer
          (case state of None \<Rightarrow> buildTutorialMetadata | Some s \<Rightarrow> driveMetadata s) action,
      children =
        childrenReducer (case state of None \<Rightarrow> Map.empty | Some s \<Rightarrow> children s) action,
      roots =
        rootsReducer (case state of None \<Rightarrow> Map.empty | Some s \<Rightarrow> roots s) action\<rparr>"

text \<open>
  \<^verbatim>\<open>fileIndexReducer\<close>. The two \<^verbatim>\<open>parents\<close> are compared with \<^verbatim>\<open>!==\<close>, by reference; two
  arrays with the same elements give no removed parents, so comparing the values leads
  to the same result. Spreading \<^verbatim>\<open>...nextState.driveMetadata[id].parents\<close> raises a
  \<^verbatim>\<open>TypeError\<close> when the new metadata has no \<^verbatim>\<open>parents\<close>.
\<close>

definition fileIndexReducer ::
  "DriveMetadataReducerType \<Rightarrow> FileIndexReducerType option \<Rightarrow> FileIndexActionType
     \<Rightarrow> jsError + FileIndexReducerType" where
  "fileIndexReducer buildTutorialMetadata state action =
     (let nextState = combinedFileIndexReducer buildTutorialMetadata state action
      in case action of
           UPDATE_FILE_ACTION metadata \<Rightarrow>
             (case state of
                None \<Rightarrow> Inr nextState
              | Some s \<Rightarrow>
                  (case driveMetadata s (id' metadata) of
                     None \<Rightarrow> Inr nextState
                   | Some old \<Rightarrow>
                       (case driveMetadata nextState (id' metadata) of
                          None \<Rightarrow> Inr nextState
                        | Some new \<Rightarrow>
                            if parents old \<noteq> parents new
                            then (case parents new of
                                    None \<Rightarrow> Inl TypeError
                                  | Some newParents \<Rightarrow>
                                      (let removedParents = without (parents old) newParents
                                       in if length removedParents > 0
                                          then Inr (nextState\<lparr>children :=
                                                 fold (\<lambda>removedParentId children.
                                                         children(removedParentId \<mapsto>
                                                           without (children removedParentId)
                                                             [id' metadata]))
                                                   removedParents (children nextState)\<rparr>)
                                          else Inr nextState))
                            else Inr nextState)))
         | _ \<Rightarrow> Inr nextState)"

section \<open>The logged-in-user reducer\<close>

text \<open>
  \<^verbatim>\<open>loggedInUserReducer(state = null, action)\<close> keeps the user who is signed in on this
  client. The user type \<^verbatim>\<open>DriveUser\<close> is declared outside the files at hand and is a type
  parameter here; \<^verbatim>\<open>null\<close> is \<open>None\<close>. The action is either the one action type the
  reducer knows, with its \<^verbatim>\<open>user\<close> and the \<^verbatim>\<open>fromPeerId\<close> a relayed action carries
  (absent on an action dispatched locally), or any other action.
\<close>

datatype 'u loggedInUserAction =
    SET_LOGGED_IN_USER (user: "'u option") (fromPeerId: "string option")
  | OTHER_ACTION

text \<open>
  The reducer tests \<^verbatim>\<open>action.fromPeerId\<close> for truthiness: an absent field and the
  empty string are both falsy in JavaScript.
\<close>

definition truthy :: "string option \<Rightarrow> bool" where
  "truthy v = (case v of None \<Rightarrow> False | Some s \<Rightarrow> s \<noteq> [])"

text \<open>
  The first argument is \<open>None\<close> when Redux passes \<^verbatim>\<open>undefined\<close> (the default parameter
  then makes the state \<^verbatim>\<open>null\<close>), and \<open>Some s\<close> for a state \<open>s\<close>.
\<close>

definition loggedInUserReducer ::
  "'u option option \<Rightarrow> 'u loggedInUserAction \<Rightarrow> 'u option" where
  "loggedInUserReducer st action =
     (let state = (case st of None \<Rightarrow> None | Some s \<Rightarrow> s) in
      case action of
        SET_LOGGED_IN_USER u p \<Rightarrow> (if truthy p then state else u)
      | OTHER_ACTION \<Rightarrow> state)"

section \<open>Bitmask arrays: elements, lengths and sequences of edits\<close>

lemma fogArray_eqI:
  assumes "length a = length b" and "\<And>j. slot a j = slot b j"
  shows "a = b"
proof (rule nth_equalityI)
  show "length a = length b" by (rule assms(1))
next
  fix i assume "i < length a"
  with assms(1) assms(2) [of i] show "a ! i = b ! i"
    by (simp add: slot_def)
qed

lemma length_setWord:
  "length (setWord a i v) = (if i < 0 then length a else max (length a) (nat i + 1))"
  by (auto simp: setWord_def)

lemma slot_setWord:
  "slot (setWord a i v) j = (if 0 \<le> i \<and> j = nat i then Some v else slot a j)"
  by (auto simp: setWord_def slot_def nth_append nth_list_update)

lemma getWord_slot:
  "getWord a i = (if 0 \<le> i then wordOf (slot a (nat i)) else 0)"
  by (auto simp: getWord_def slot_def wordOf_def)

lemma length_editCell:
  "length (editCell r t a) = max (length a) (wordExtent t)"
  by (simp add: editCell_def length_setWord wordExtent_def)

lemma slot_editCell:
  "slot (editCell r t a) j =
     (if bitmaskIndex t = int j then Some (applyMask r (mask' t) (wordOf (slot a j)))
      else slot a j)"
  by (auto simp: editCell_def slot_setWord getWord_slot)

lemma length_fold_editCell:
  "length (fold (editCell r) ts a) = max (length a) (extent ts)"
  by (induction ts arbitrary: a) (simp_all add: length_editCell max.assoc)

lemma slot_fold_editCell:
  "slot (fold (editCell r) ts a) j =
     (if masksAt j ts = [] then slot a j
      else Some (fold (applyMask r) (masksAt j ts) (wordOf (slot a j))))"
proof (induction ts arbitrary: a)
  case Nil
  then show ?case by (simp add: masksAt_def)
next
  case (Cons t ts)
  show ?case
  proof (cases "bitmaskIndex t = int j")
    case True
    then show ?thesis
      by (simp add: Cons.IH slot_editCell masksAt_def wordOf_def)
  next
    case False
    then show ?thesis
      by (simp add: Cons.IH slot_editCell masksAt_def)
  qed
qed

lemma fold_concat_fold: "fold f (concat xss) a = fold (fold f) xss a"
  by (induction xss arbitrary: a) simp_all

lemma fogLoop_cells:
  "fogLoop r w sx sy ex ey a = fold (editCell r) (cells w sx sy ex ey) a"
  by (simp add: fogLoop_def cells_def fold_concat_fold fold_map comp_def)

lemma extent_append: "extent (ts @ us) = max (extent ts) (extent us)"
  by (induction ts) (simp_all add: max.assoc)

lemma masksAt_append: "masksAt j (ts @ us) = masksAt j ts @ masksAt j us"
  by (simp add: masksAt_def)

lemma applyMask_commute:
  "applyMask r m (applyMask r n w) = applyMask r n (applyMask r m w)"
  by (cases r) (auto simp: applyMask_def ac_simps split: bool.splits)

lemma fold_applyMask_swap:
  "fold (applyMask r) (ms @ ns) w = fold (applyMask r) (ns @ ms) w"
proof -
  have "fold (applyMask r) (ms @ ns) = fold (applyMask r) (ns @ ms)"
    by (rule fold_multiset_equiv) (auto simp: fun_eq_iff applyMask_commute)
  then show ?thesis by simp
qed

lemma fold_editCell_swap:
  "fold (editCell r) (ts @ us) a = fold (editCell r) (us @ ts) a"
proof (rule fogArray_eqI)
  show "length (fold (editCell r) (ts @ us) a) = length (fold (editCell r) (us @ ts) a)"
    by (simp only: length_fold_editCell extent_append max.commute)
next
  fix j
  show "slot (fold (editCell r) (ts @ us) a) j = slot (fold (editCell r) (us @ ts) a) j"
    unfolding slot_fold_editCell masksAt_append
    using fold_applyMask_swap [of r "masksAt j ts" "masksAt j us"]
    by auto
qed


lemma applyMask_toggle: "applyMask None m w = w XOR m"
  by (simp add: applyMask_def)










lemma fold_editCellAt:
  "p < length st \<Longrightarrow>
     fold (editCellAt r p) ts st = st[p := fold (editCell r) ts (st ! p)]"
  by (induction ts arbitrary: st) (simp_all add: editCellAt_def)

lemma storeLoop_cells:
  "fold (\<lambda>y. fold (\<lambda>x. editCellAt r p (x + y * w)) [sx..ex]) [sy..ey] st
     = fold (editCellAt r p) (cells w sx sy ex ey) st"
  by (simp add: cells_def fold_concat_fold fold_map comp_def)

lemma concat_map_Nil: "concat (map (\<lambda>y. []) ys) = []"
  by (induction ys) simp_all

lemma cells_empty:
  "endX < startX \<or> endY < startY \<Longrightarrow> cells w startX startY endX endY = []"
  by (auto simp: cells_def concat_map_Nil)

lemma fogLoop_empty:
  "endX < startX \<or> endY < startY \<Longrightarrow> fogLoop r w startX startY endX endY a = a"
  by (simp add: fogLoop_cells cells_empty)

lemma changeFogOfWarBitmask_Some:
  "changeFogOfWarBitmask r (Some b) w h sp ep =
     (case cellBounds w h sp ep of
        (sx, sy, ex, ey) \<Rightarrow> Inr (fold (editCell r) (cells w sx sy ex ey) b))"
  by (simp add: changeFogOfWarBitmask_def fogLoop_cells split: prod.splits)

section \<open>Cells of the grid and words of the array\<close>


lemma ceiling_div32: "\<lceil>of_int n / (32 :: real)\<rceil> = - ((- n) div 32)"
  using ceiling_divide_eq_div [of n 32] by simp





lemma clamp_lower: "lower \<le> clamp number lower upper"
  by (simp add: clamp_def Let_def)

lemma clamp_upper: "lower \<le> upper \<Longrightarrow> clamp number lower upper \<le> upper"
  by (simp add: clamp_def Let_def)


lemma cellBounds_clamped:
  assumes "0 \<le> w" and "0 \<le> h" and "cellBounds w h sp ep = (sx, sy, ex, ey)"
  shows "0 \<le> sx \<and> sx \<le> w \<and> 0 \<le> ex \<and> ex \<le> w \<and> 0 \<le> sy \<and> sy \<le> h \<and> 0 \<le> ey \<and> ey \<le> h"
proof -
  have "0 \<le> clamp n 0 w \<and> clamp n 0 w \<le> w" for n
    using assms(1) by (simp add: clamp_lower clamp_upper)
  moreover have "0 \<le> clamp n 0 h \<and> clamp n 0 h \<le> h" for n
    using assms(2) by (simp add: clamp_lower clamp_upper)
  ultimately show ?thesis
    using assms(3) unfolding cellBounds_def Let_def by blast
qed


section \<open>Properties of the fog edit\<close>

text \<open>
  Claim C1: for every rectangle, also one that extends far beyond the map, the cell bounds
  are clamped to \<open>[0, fogWidth]\<close> and \<open>[0, fogHeight]\<close>, and the loop never reads or
  writes a word outside the bitmask array of length \<open>ceil(fogWidth * fogHeight / 32)\<close>.
  The bounds are clamped as claimed, but with both ends included: the loop also visits the
  column \<open>x = fogWidth\<close> and the row \<open>y = fogHeight\<close>, which are not cells of the grid. On
  an 8 by 8 grid, whose bitmask has \<open>ceil(64 / 32) = 2\<close> words, a reveal of a rectangle
  reaching beyond the map on all sides has the bounds \<open>(0, 0, 8, 8)\<close>; the texture index
  \<open>0 + 8 * 8\<close> of its cell \<open>(0, 8)\<close> has the word index 2, which is outside the array, and
  the write extends the array to three words.
\<close>

theorem changeFogOfWarBitmask_writes_beyond_array:
  "cellBounds 8 8 \<lparr>vecX = - 100, vecY = 0, vecZ = - 100\<rparr> \<lparr>vecX = 9999 / 100, vecY = 0, vecZ = 9999 / 100\<rparr>
     = (0, 0, 8, 8)
   \<and> nat \<lceil>of_int (8 * 8) / (32 :: real)\<rceil> = 2
   \<and> bitmaskIndex (0 + 8 * 8) = 2
   \<and> changeFogOfWarBitmask (Some True) (Some [Some 0, Some 0]) 8 8
        \<lparr>vecX = - 100, vecY = 0, vecZ = - 100\<rparr> \<lparr>vecX = 9999 / 100, vecY = 0, vecZ = 9999 / 100\<rparr>
     = Inr [Some (- 1), Some (- 1), Some 511]"
proof -
  have b: "cellBounds 8 8 \<lparr>vecX = - 100, vecY = 0, vecZ = - 100\<rparr>
             \<lparr>vecX = 9999 / 100, vecY = 0, vecZ = 9999 / 100\<rparr> = (0, 0, 8, 8)"
    by (simp add: cellBounds_def clamp_def)
  have l: "fogLoop (Some True) 8 0 0 8 8 [Some 0, Some 0] = [Some (- 1), Some (- 1), Some 511]"
    by code_simp
  have i: "bitmaskIndex 64 = 2"
    by (simp add: bitmaskIndex_def toInt32_def)
  show ?thesis
    by (simp add: changeFogOfWarBitmask_def b l i)
qed

text \<open>
  Claim C2 says that an edit of a grid with \<open>fogWidth * fogHeight \<le> 0\<close> returns the bitmask
  unchanged. The function has no test of the dimensions. With \<open>fogWidth = fogHeight = 0\<close>
  every bound is clamped to 0, so the loop visits the one cell \<open>(0, 0)\<close>: a reveal on the
  empty bitmask writes word 0 and returns an array of one word.
\<close>

theorem degenerate_grid_edit_counterexample:
  "(0 :: int) * 0 \<le> 0
   \<and> changeFogOfWarBitmask (Some True) (Some []) 0 0
        \<lparr>vecX = 0, vecY = 0, vecZ = 0\<rparr> \<lparr>vecX = 99 / 100, vecY = 0, vecZ = 99 / 100\<rparr> = Inr [Some 1]
   \<and> [Some 1] \<noteq> ([] :: fogArray)"
proof -
  have b: "cellBounds 0 0 \<lparr>vecX = 0, vecY = 0, vecZ = 0\<rparr> \<lparr>vecX = 99 / 100, vecY = 0, vecZ = 99 / 100\<rparr>
             = (0, 0, 0, 0)"
    by (simp add: cellBounds_def clamp_def)
  have l: "fogLoop (Some True) 0 0 0 0 0 [] = [Some 1]"
    by code_simp
  show ?thesis
    by (simp add: changeFogOfWarBitmask_def b l)
qed

text \<open>
  Claim C2, amended: when \<open>fogWidth * fogHeight \<le> 0\<close> the edit is not guarded. It returns
  the given bitmask unchanged if the clamped cell range is empty, that is, if
  \<open>endX < startX\<close> or \<open>endY < startY\<close>; and with \<open>fogWidth = fogHeight = 0\<close> the range is
  the one cell \<open>(0, 0)\<close>, so the result is the given bitmask with the operation applied to
  bit 0 of word 0.
\<close>

theorem degenerate_grid_edit_is_not_guarded:
  assumes "fogWidth * fogHeight \<le> 0"
    and "cellBounds fogWidth fogHeight sp ep = (startX, startY, endX, endY)"
  shows "(endX < startX \<or> endY < startY \<longrightarrow>
            changeFogOfWarBitmask reveal (Some B) fogWidth fogHeight sp ep = Inr B)
       \<and> (fogWidth = 0 \<and> fogHeight = 0 \<longrightarrow>
            changeFogOfWarBitmask reveal (Some B) fogWidth fogHeight sp ep
              = Inr (editCell reveal 0 B))"
proof -
  have "changeFogOfWarBitmask reveal (Some B) fogWidth fogHeight sp ep = Inr B"
    if "endX < startX \<or> endY < startY"
    using assms(2) that by (simp add: changeFogOfWarBitmask_def fogLoop_empty)
  moreover have "changeFogOfWarBitmask reveal (Some B) fogWidth fogHeight sp ep
      = Inr (editCell reveal 0 B)"
    if "fogWidth = 0 \<and> fogHeight = 0"
  proof -
    have "clamp n 0 0 = 0" for n
      by (simp add: clamp_def Let_def)
    with that have "cellBounds fogWidth fogHeight sp ep = (0, 0, 0, 0)"
      by (simp add: cellBounds_def Let_def)
    with that show ?thesis
      by (simp add: changeFogOfWarBitmask_def fogLoop_def)
  qed
  ultimately show ?thesis by blast
qed

theorem degenerate_grid_edit_is_not_guarded_witness:
  "(0 :: int) * 5 \<le> 0
   \<and> cellBounds 0 5 \<lparr>vecX = 0, vecY = 0, vecZ = 0\<rparr> \<lparr>vecX = 0, vecY = 0, vecZ = 0\<rparr> = (0, 3, 0, 2)
   \<and> ((0 :: int) < 0 \<or> (2 :: int) < 3)
   \<and> changeFogOfWarBitmask (Some False) (Some [Some 5]) 0 5
        \<lparr>vecX = 0, vecY = 0, vecZ = 0\<rparr> \<lparr>vecX = 0, vecY = 0, vecZ = 0\<rparr> = Inr [Some 5]
   \<and> (0 :: int) * 0 \<le> 0
   \<and> cellBounds 0 0 \<lparr>vecX = 0, vecY = 0, vecZ = 0\<rparr> \<lparr>vecX = 99 / 100, vecY = 0, vecZ = 99 / 100\<rparr>
        = (0, 0, 0, 0)
   \<and> changeFogOfWarBitmask (Some False) (Some [Some 5]) 0 0
        \<lparr>vecX = 0, vecY = 0, vecZ = 0\<rparr> \<lparr>vecX = 99 / 100, vecY = 0, vecZ = 99 / 100\<rparr>
        = Inr (editCell (Some False) 0 [Some 5])
   \<and> editCell (Some False) 0 [Some 5] = [Some 4]"
proof -
  have b: "cellBounds 0 5 \<lparr>vecX = 0, vecY = 0, vecZ = 0\<rparr> \<lparr>vecX = 0, vecY = 0, vecZ = 0\<rparr>
             = (0, 3, 0, 2)"
    by (simp add: cellBounds_def clamp_def)
  have c: "cellBounds 0 0 \<lparr>vecX = 0, vecY = 0, vecZ = 0\<rparr>
             \<lparr>vecX = 99 / 100, vecY = 0, vecZ = 99 / 100\<rparr> = (0, 0, 0, 0)"
    by (simp add: cellBounds_def clamp_def)
  have e: "editCell (Some False) 0 [Some 5] = [Some 4]"
    by code_simp
  show ?thesis
    using degenerate_grid_edit_is_not_guarded [of 0 5 "\<lparr>vecX = 0, vecY = 0, vecZ = 0\<rparr>"
        "\<lparr>vecX = 0, vecY = 0, vecZ = 0\<rparr>" 0 3 0 2 "Some False" "[Some 5]"]
      degenerate_grid_edit_is_not_guarded [of 0 0 "\<lparr>vecX = 0, vecY = 0, vecZ = 0\<rparr>"
        "\<lparr>vecX = 99 / 100, vecY = 0, vecZ = 99 / 100\<rparr>" 0 0 0 0 "Some False" "[Some 5]"]
      b c e
    by simp
qed




text \<open>
  Claim C4: revealing a rectangle \<open>R1\<close> and then a rectangle \<open>R2\<close> yields the same bitmask
  as revealing \<open>R2\<close> and then \<open>R1\<close>, for every bitmask \<open>B\<close> and all rectangles that do not
  intersect. Both orders return a bitmask, and it is the same one; this holds for all
  pairs of rectangles, so in particular for those that do not intersect.
\<close>

theorem reveal_edits_commute:
  "\<exists>B1 B2 C.
      changeFogOfWarBitmask (Some True) (Some B) fogWidth fogHeight sp1 ep1 = Inr B1
    \<and> changeFogOfWarBitmask (Some True) (Some B1) fogWidth fogHeight sp2 ep2 = Inr C
    \<and> changeFogOfWarBitmask (Some True) (Some B) fogWidth fogHeight sp2 ep2 = Inr B2
    \<and> changeFogOfWarBitmask (Some True) (Some B2) fogWidth fogHeight sp1 ep1 = Inr C"
proof -
  obtain sx1 sy1 ex1 ey1 where b1: "cellBounds fogWidth fogHeight sp1 ep1 = (sx1, sy1, ex1, ey1)"
    by (cases "cellBounds fogWidth fogHeight sp1 ep1") auto
  obtain sx2 sy2 ex2 ey2 where b2: "cellBounds fogWidth fogHeight sp2 ep2 = (sx2, sy2, ex2, ey2)"
    by (cases "cellBounds fogWidth fogHeight sp2 ep2") auto
  let ?c1 = "cells fogWidth sx1 sy1 ex1 ey1" and ?c2 = "cells fogWidth sx2 sy2 ex2 ey2"
  have "fold (editCell (Some True)) ?c2 (fold (editCell (Some True)) ?c1 B)
          = fold (editCell (Some True)) ?c1 (fold (editCell (Some True)) ?c2 B)"
    using fold_editCell_swap [of "Some True" ?c1 ?c2 B] by simp
  then show ?thesis
    by (simp add: changeFogOfWarBitmask_Some b1 b2)
qed

text \<open>
  Claim C5: a fog edit never mutates the array it is given. In the store, the edit of the
  bitmask at address \<open>r\<close> returns a new address; the array at \<open>r\<close>, like every array the
  store held before the call, is the same after it, and the array at the new address is
  the result of the edit.
\<close>

theorem changeFogOfWarBitmaskStore_leaves_input_array:
  assumes "r < length st"
  shows "\<exists>st' fogOfWar.
           changeFogOfWarBitmaskStore reveal st (Some r) fogWidth fogHeight sp ep
             = Inr (st', fogOfWar)
         \<and> fogOfWar \<noteq> r
         \<and> st' ! r = st ! r
         \<and> take (length st) st' = st
         \<and> Inr (st' ! fogOfWar)
             = changeFogOfWarBitmask reveal (Some (st ! r)) fogWidth fogHeight sp ep"
proof -
  obtain sx sy ex ey where b: "cellBounds fogWidth fogHeight sp ep = (sx, sy, ex, ey)"
    by (cases "cellBounds fogWidth fogHeight sp ep") auto
  define st' where
    "st' = (st @ [st ! r])[length st := fold (editCell reveal) (cells fogWidth sx sy ex ey) (st ! r)]"
  have run: "changeFogOfWarBitmaskStore reveal st (Some r) fogWidth fogHeight sp ep
               = Inr (st', length st)"
    by (simp add: changeFogOfWarBitmaskStore_def b storeLoop_cells fold_editCellAt st'_def)
  have "length st \<noteq> r" using assms by simp
  moreover have "st' ! r = st ! r"
    using assms by (simp add: st'_def nth_append)
  moreover have "take (length st) st' = st"
    by (simp add: st'_def)
  moreover have "Inr (st' ! length st)
      = changeFogOfWarBitmask reveal (Some (st ! r)) fogWidth fogHeight sp ep"
    by (simp add: st'_def changeFogOfWarBitmask_Some b)
  ultimately show ?thesis using run by blast
qed

theorem changeFogOfWarBitmaskStore_leaves_input_array_witness:
  "(0 :: nat) < length [[Some (0 :: 32 word)]]
   \<and> changeFogOfWarBitmaskStore (Some True) [[Some 0]] (Some 0) 4 4
        \<lparr>vecX = - 2, vecY = 0, vecZ = - 2\<rparr> \<lparr>vecX = 199 / 100, vecY = 0, vecZ = 199 / 100\<rparr>
       = Inr ([[Some 0], [Some 65535]], 1)
   \<and> (1 :: nat) \<noteq> 0
   \<and> [[Some 0], [Some (65535 :: 32 word)]] ! 0 = [[Some 0]] ! 0
   \<and> take (length [[Some (0 :: 32 word)]]) [[Some 0], [Some 65535]] = [[Some 0]]
   \<and> changeFogOfWarBitmask (Some True) (Some ([[Some 0]] ! 0)) 4 4
        \<lparr>vecX = - 2, vecY = 0, vecZ = - 2\<rparr> \<lparr>vecX = 199 / 100, vecY = 0, vecZ = 199 / 100\<rparr>
       = Inr ([[Some 0], [Some 65535]] ! 1)"
proof -
  have b: "cellBounds 4 4 \<lparr>vecX = - 2, vecY = 0, vecZ = - 2\<rparr>
             \<lparr>vecX = 199 / 100, vecY = 0, vecZ = 199 / 100\<rparr> = (0, 0, 3, 3)"
    by (simp add: cellBounds_def clamp_def)
  have l: "fogLoop (Some True) 4 0 0 3 3 [Some 0] = [Some 65535]"
    by code_simp
  have v: "changeFogOfWarBitmask (Some True) (Some [Some 0]) 4 4
             \<lparr>vecX = - 2, vecY = 0, vecZ = - 2\<rparr> \<lparr>vecX = 199 / 100, vecY = 0, vecZ = 199 / 100\<rparr>
           = Inr [Some 65535]"
    by (simp add: changeFogOfWarBitmask_def b l)
  have s: "fold (\<lambda>y. fold (\<lambda>x. editCellAt (Some True) (Suc 0) (x + y * 4)) [0..3]) [0..3]
             [[Some 0], [Some 0]] = [[Some 0], [Some 65535]]"
    by code_simp
  have run: "changeFogOfWarBitmaskStore (Some True) [[Some 0]] (Some 0) 4 4
             \<lparr>vecX = - 2, vecY = 0, vecZ = - 2\<rparr> \<lparr>vecX = 199 / 100, vecY = 0, vecZ = 199 / 100\<rparr>
           = Inr ([[Some 0], [Some 65535]], 1)"
    by (simp add: changeFogOfWarBitmaskStore_def b s)
  show ?thesis
    using changeFogOfWarBitmaskStore_leaves_input_array
      [of 0 "[[Some 0]]" "Some True" 4 4 "\<lparr>vecX = - 2, vecY = 0, vecZ = - 2\<rparr>"
         "\<lparr>vecX = 199 / 100, vecY = 0, vecZ = 199 / 100\<rparr>"]
    by (simp add: run v)
qed

text \<open>
  Claim C6: when the map has no bitmask, the baseline that is allocated has the length
  \<open>ceil(fogWidth * fogHeight / 32)\<close> and every word equal to \<open>-1\<close>, and the edit proceeds
  from it: the result is that of the same edit on a map whose bitmask is the baseline.
  The dimensions are positive, and the length is one \<^verbatim>\<open>new Array\<close> accepts (below \<open>2 ^ 32\<close>).
\<close>

theorem no_prior_bitmask_starts_from_all_revealed:
  assumes "0 < fogWidth" and "0 < fogHeight"
    and "fogWidth * fogHeight \<le> 32 * (2 ^ 32 - 1)"
  shows "\<exists>baseline.
           newFogArray fogWidth fogHeight = Inr baseline
         \<and> int (length baseline) = \<lceil>of_int (fogWidth * fogHeight) / (32 :: real)\<rceil>
         \<and> baseline = replicate (length baseline) (Some (- 1))
         \<and> changeFogOfWarBitmask reveal None fogWidth fogHeight sp ep
             = changeFogOfWarBitmask reveal (Some baseline) fogWidth fogHeight sp ep"
proof -
  define n where "n = \<lceil>of_int (fogWidth * fogHeight) / (32 :: real)\<rceil>"
  have n: "n = - ((- (fogWidth * fogHeight)) div 32)"
    unfolding n_def by (rule ceiling_div32)
  have "0 < fogWidth * fogHeight" using assms(1,2) by simp
  then have lo: "0 \<le> n"
    unfolding n using div_mult_mod_eq [of "- (fogWidth * fogHeight)" 32]
      pos_mod_bound [of 32 "- (fogWidth * fogHeight)"] by linarith
  have "fogWidth * fogHeight \<le> 137438953440"
    using assms(3) by simp
  then have "n \<le> 4294967295"
    unfolding n using div_mult_mod_eq [of "- (fogWidth * fogHeight)" 32]
      pos_mod_sign [of 32 "- (fogWidth * fogHeight)"] by linarith
  then have hi: "n < 2 ^ 32" by simp
  have new: "newFogArray fogWidth fogHeight = Inr (replicate (nat n) (Some (- 1)))"
    unfolding newFogArray_def Let_def n_def [symmetric] using lo hi by simp
  have len: "int (length (replicate (nat n) (Some (- 1 :: 32 word)))) = n"
    using lo by simp
  have same: "changeFogOfWarBitmask reveal None fogWidth fogHeight sp ep
      = changeFogOfWarBitmask reveal (Some (replicate (nat n) (Some (- 1)))) fogWidth fogHeight sp ep"
    unfolding changeFogOfWarBitmask_def new by simp
  show ?thesis
    unfolding n_def [symmetric]
    using new len same by (intro exI [of _ "replicate (nat n) (Some (- 1))"]) simp
qed

theorem no_prior_bitmask_starts_from_all_revealed_witness:
  "(0 :: int) < 10 \<and> (0 :: int) < 10 \<and> (10 :: int) * 10 \<le> 32 * (2 ^ 32 - 1)
   \<and> newFogArray 10 10 = Inr [Some (- 1), Some (- 1), Some (- 1), Some (- 1)]
   \<and> int (length [Some (- 1 :: 32 word), Some (- 1), Some (- 1), Some (- 1)])
       = \<lceil>of_int (10 * 10) / (32 :: real)\<rceil>
   \<and> [Some (- 1 :: 32 word), Some (- 1), Some (- 1), Some (- 1)] = replicate 4 (Some (- 1))
   \<and> changeFogOfWarBitmask (Some False) None 10 10
        \<lparr>vecX = - 3, vecY = 0, vecZ = - 3\<rparr> \<lparr>vecX = - (1 / 100), vecY = 0, vecZ = - (1 / 100)\<rparr>
       = Inr [Some 4265607167, Some 4294960120, Some (- 1), Some (- 1)]
   \<and> changeFogOfWarBitmask (Some False)
        (Some [Some (- 1), Some (- 1), Some (- 1), Some (- 1)]) 10 10
        \<lparr>vecX = - 3, vecY = 0, vecZ = - 3\<rparr> \<lparr>vecX = - (1 / 100), vecY = 0, vecZ = - (1 / 100)\<rparr>
       = Inr [Some 4265607167, Some 4294960120, Some (- 1), Some (- 1)]"
proof -
  have c: "\<lceil>of_int (10 * 10) / (32 :: real)\<rceil> = 4"
    unfolding ceiling_div32 by simp
  have n: "newFogArray 10 10 = Inr [Some (- 1), Some (- 1), Some (- 1), Some (- 1)]"
    unfolding newFogArray_def Let_def c by (simp add: numeral_eq_Suc)
  have b: "cellBounds 10 10 \<lparr>vecX = - 3, vecY = 0, vecZ = - 3\<rparr>
             \<lparr>vecX = - (1 / 100), vecY = 0, vecZ = - (1 / 100)\<rparr> = (2, 2, 4, 4)"
    by (simp add: cellBounds_def clamp_def)
  have l: "fogLoop (Some False) 10 2 2 4 4 [Some (- 1), Some (- 1), Some (- 1), Some (- 1)]
             = [Some 4265607167, Some 4294960120, Some (- 1), Some (- 1)]"
    by code_simp
  have v: "changeFogOfWarBitmask (Some False)
             (Some [Some (- 1), Some (- 1), Some (- 1), Some (- 1)]) 10 10
             \<lparr>vecX = - 3, vecY = 0, vecZ = - 3\<rparr> \<lparr>vecX = - (1 / 100), vecY = 0, vecZ = - (1 / 100)\<rparr>
           = Inr [Some 4265607167, Some 4294960120, Some (- 1), Some (- 1)]"
    by (simp add: changeFogOfWarBitmask_def b l)
  show ?thesis
    using no_prior_bitmask_starts_from_all_revealed
      [of 10 10 "Some False" "\<lparr>vecX = - 3, vecY = 0, vecZ = - 3\<rparr>"
         "\<lparr>vecX = - (1 / 100), vecY = 0, vecZ = - (1 / 100)\<rparr>"]
    unfolding c by (auto simp: n v numeral_eq_Suc)
qed

section \<open>Properties of the rounding\<close>

lemma floor_less_epsilon: "\<lfloor>of_int n - 1 / 100 :: real\<rfloor> = n - 1"
  by (rule floor_unique) simp_all

text \<open>
  Claim C7: on each of the two axes, if start \<open>\<le>\<close> end then start becomes its floor and end
  its ceiling minus the epsilon \<open>1 / 100\<close>; if start \<open>>\<close> end then start becomes its ceiling
  minus the epsilon and end its floor. So the returned pair brackets the original drag on
  whole-cell boundaries, whichever way round the two points are: the whole cells the pair
  spans, from the floor of its lower coordinate to one above the floor of its upper
  coordinate, contain the two original coordinates. The y components are unchanged.
\<close>

theorem roundVectors_rounds_outward:
  assumes "roundVectors s e = (s', e')"
  shows "(vecX s \<le> vecX e \<longrightarrow>
            vecX s' = of_int \<lfloor>vecX s\<rfloor> \<and> vecX e' = of_int \<lceil>vecX e\<rceil> - 1 / 100
          \<and> of_int \<lfloor>vecX s'\<rfloor> \<le> vecX s \<and> vecX e \<le> of_int \<lfloor>vecX e'\<rfloor> + 1)
       \<and> (vecX e < vecX s \<longrightarrow>
            vecX s' = of_int \<lceil>vecX s\<rceil> - 1 / 100 \<and> vecX e' = of_int \<lfloor>vecX e\<rfloor>
          \<and> of_int \<lfloor>vecX e'\<rfloor> \<le> vecX e \<and> vecX s \<le> of_int \<lfloor>vecX s'\<rfloor> + 1)
       \<and> (vecZ s \<le> vecZ e \<longrightarrow>
            vecZ s' = of_int \<lfloor>vecZ s\<rfloor> \<and> vecZ e' = of_int \<lceil>vecZ e\<rceil> - 1 / 100
          \<and> of_int \<lfloor>vecZ s'\<rfloor> \<le> vecZ s \<and> vecZ e \<le> of_int \<lfloor>vecZ e'\<rfloor> + 1)
       \<and> (vecZ e < vecZ s \<longrightarrow>
            vecZ s' = of_int \<lceil>vecZ s\<rceil> - 1 / 100 \<and> vecZ e' = of_int \<lfloor>vecZ e\<rfloor>
          \<and> of_int \<lfloor>vecZ e'\<rfloor> \<le> vecZ e \<and> vecZ s \<le> of_int \<lfloor>vecZ s'\<rfloor> + 1)
       \<and> vecY s' = vecY s \<and> vecY e' = vecY e"
proof -
  have x: "vecX s' = of_int \<lfloor>vecX s\<rfloor> \<and> vecX e' = of_int \<lceil>vecX e\<rceil> - 1 / 100"
    if "vecX s \<le> vecX e"
    using assms that by (auto simp: roundVectors_def split: if_splits)
  have x': "vecX s' = of_int \<lceil>vecX s\<rceil> - 1 / 100 \<and> vecX e' = of_int \<lfloor>vecX e\<rfloor>"
    if "vecX e < vecX s"
    using assms that by (auto simp: roundVectors_def split: if_splits)
  have z: "vecZ s' = of_int \<lfloor>vecZ s\<rfloor> \<and> vecZ e' = of_int \<lceil>vecZ e\<rceil> - 1 / 100"
    if "vecZ s \<le> vecZ e"
    using assms that by (auto simp: roundVectors_def split: if_splits)
  have z': "vecZ s' = of_int \<lceil>vecZ s\<rceil> - 1 / 100 \<and> vecZ e' = of_int \<lfloor>vecZ e\<rfloor>"
    if "vecZ e < vecZ s"
    using assms that by (auto simp: roundVectors_def split: if_splits)
  have y: "vecY s' = vecY s \<and> vecY e' = vecY e"
    using assms by (auto simp: roundVectors_def split: if_splits)
  have up: "a \<le> of_int \<lfloor>of_int \<lceil>a\<rceil> - 1 / 100 :: real\<rfloor> + 1" for a :: real
    by (simp add: floor_less_epsilon le_of_int_ceiling)
  show ?thesis
    using x x' z z' y up [of "vecX e"] up [of "vecX s"] up [of "vecZ e"] up [of "vecZ s"]
    by (auto simp: of_int_floor_le)
qed

theorem roundVectors_rounds_outward_witness:
  "roundVectors \<lparr>vecX = 3 / 10, vecY = 0, vecZ = 27 / 10\<rparr> \<lparr>vecX = 22 / 10, vecY = 0, vecZ = 4 / 10\<rparr>
     = (\<lparr>vecX = 0, vecY = 0, vecZ = 299 / 100\<rparr>, \<lparr>vecX = 299 / 100, vecY = 0, vecZ = 0\<rparr>)
   \<and> (3 / 10 :: real) \<le> 22 / 10
   \<and> (0 :: real) = of_int \<lfloor>3 / 10 :: real\<rfloor>
   \<and> (299 / 100 :: real) = of_int \<lceil>22 / 10 :: real\<rceil> - 1 / 100
   \<and> of_int \<lfloor>0 :: real\<rfloor> \<le> (3 / 10 :: real)
   \<and> (22 / 10 :: real) \<le> of_int \<lfloor>299 / 100 :: real\<rfloor> + 1
   \<and> (4 / 10 :: real) < 27 / 10
   \<and> (299 / 100 :: real) = of_int \<lceil>27 / 10 :: real\<rceil> - 1 / 100
   \<and> (0 :: real) = of_int \<lfloor>4 / 10 :: real\<rfloor>
   \<and> of_int \<lfloor>0 :: real\<rfloor> \<le> (4 / 10 :: real)
   \<and> (27 / 10 :: real) \<le> of_int \<lfloor>299 / 100 :: real\<rfloor> + 1"
proof -
  have r: "roundVectors \<lparr>vecX = 3 / 10, vecY = 0, vecZ = 27 / 10\<rparr>
             \<lparr>vecX = 22 / 10, vecY = 0, vecZ = 4 / 10\<rparr>
           = (\<lparr>vecX = 0, vecY = 0, vecZ = 299 / 100\<rparr>, \<lparr>vecX = 299 / 100, vecY = 0, vecZ = 0\<rparr>)"
    by (simp add: roundVectors_def)
  from roundVectors_rounds_outward [OF r] r show ?thesis by simp
qed

section \<open>Properties of the auto-pan timer\<close>






section \<open>Properties of the logged-in-user reducer\<close>

text \<open>
  Claim C9. For every prior state and every set-logged-in-user action, the reducer
  returns the prior state unchanged when the action carries a (non-empty, hence truthy)
  \<^verbatim>\<open>fromPeerId\<close>, and returns the action's user when the action has no \<^verbatim>\<open>fromPeerId\<close>,
  that is, when it originates locally.
\<close>

theorem loggedInUserReducer_peer_ignored_local_applied:
  "(p \<noteq> [] \<longrightarrow>
      loggedInUserReducer (Some state) (SET_LOGGED_IN_USER u (Some p)) = state)
   \<and> loggedInUserReducer (Some state) (SET_LOGGED_IN_USER u None) = u"
  by (simp add: loggedInUserReducer_def truthy_def)

theorem loggedInUserReducer_peer_ignored_local_applied_witness:
  "''peer-7'' \<noteq> []
   \<and> loggedInUserReducer (Some (Some ''alice'')) (SET_LOGGED_IN_USER (Some ''bob'') (Some ''peer-7''))
       = Some ''alice''
   \<and> loggedInUserReducer (Some (Some ''alice'')) (SET_LOGGED_IN_USER (Some ''bob'') None)
       = Some ''bob''"
  using loggedInUserReducer_peer_ignored_local_applied
    [of "''peer-7''" "Some ''alice''" "Some ''bob''"]
  by simp

section \<open>Properties of the file-index reducer\<close>

lemma orEmpty_None: "orEmpty None = []"
  by (simp add: orEmpty_def)

lemma orEmpty_Some: "orEmpty (Some xs) = xs"
  by (simp add: orEmpty_def)

lemma addUpdatedFileToParent_fold:
  "orEmpty ((case fold (addUpdatedFileToParent state i) ps acc of None \<Rightarrow> state | Some n \<Rightarrow> n) p)
     = orEmpty ((case acc of None \<Rightarrow> state | Some n \<Rightarrow> n) p)
       @ replicate (if i \<in> set (orEmpty (state p)) then 0 else count_list ps p) i"
proof (induction ps arbitrary: acc)
  case Nil
  then show ?case by simp
next
  case (Cons q ps)
  show ?case
  proof (cases "i \<in> set (orEmpty (state q))")
    case True
    then have "addUpdatedFileToParent state i q acc = acc"
      by (cases "state q") (auto simp: addUpdatedFileToParent_def orEmpty_def)
    with True show ?thesis
      by (auto simp: Cons.IH)
  next
    case False
    then have step: "addUpdatedFileToParent state i q acc
        = Some ((case acc of None \<Rightarrow> state | Some n \<Rightarrow> n)
                  (q \<mapsto> orEmpty ((case acc of None \<Rightarrow> state | Some n \<Rightarrow> n) q) @ [i]))"
      by (cases "state q") (auto simp: addUpdatedFileToParent_def orEmpty_def Let_def)
    have "orEmpty ((case fold (addUpdatedFileToParent state i) (q # ps) acc of
                      None \<Rightarrow> state | Some n \<Rightarrow> n) p)
        = orEmpty (((case acc of None \<Rightarrow> state | Some n \<Rightarrow> n)
                      (q \<mapsto> orEmpty ((case acc of None \<Rightarrow> state | Some n \<Rightarrow> n) q) @ [i])) p)
          @ replicate (if i \<in> set (orEmpty (state p)) then 0 else count_list ps p) i"
      using Cons.IH [of "addUpdatedFileToParent state i q acc"] by (simp add: step)
    with False show ?thesis
      by (cases "p = q") (simp_all add: orEmpty_Some replicate_append_same)
  qed
qed

lemma count_list_distinct: "distinct xs \<Longrightarrow> x \<in> set xs \<Longrightarrow> count_list xs x = 1"
  by (induction xs) auto

lemma childrenReducer_update:
  "orEmpty (childrenReducer state (UPDATE_FILE_ACTION md) p)
     = orEmpty (state p)
       @ replicate (if id' md \<in> set (orEmpty (state p)) then 0
                    else count_list (orEmpty (parents md)) p) (id' md)"
  using addUpdatedFileToParent_fold [of state "id' md" "orEmpty (parents md)" None p]
  by (simp add: childrenReducer_def)

lemma removeFromParents_other:
  assumes "\<And>r c. f r c = c(r \<mapsto> without (c r) [i])"
  shows "p \<notin> set rs \<Longrightarrow> fold f rs c p = c p"
  by (induction rs arbitrary: c) (simp_all add: assms)

lemma removeFromParents_member:
  assumes "\<And>r c. f r c = c(r \<mapsto> without (c r) [i])"
  shows "q \<in> set rs \<Longrightarrow> i \<notin> set (orEmpty (fold f rs c q))"
proof (induction rs arbitrary: c)
  case Nil
  then show ?case by simp
next
  case (Cons r rs)
  show ?case
  proof (cases "q \<in> set rs")
    case True
    then show ?thesis by (simp add: Cons.IH)
  next
    case False
    with Cons.prems have "q = r" by simp
    with False have "fold f (r # rs) c q = Some (without (c r) [i])"
      by (simp add: removeFromParents_other [OF assms] assms)
    then show ?thesis
      by (simp add: without_def orEmpty_def)
  qed
qed

lemma fileIndexReducer_update:
  assumes "parents md = Some ps"
  shows "fileIndexReducer tutorial (Some st) (UPDATE_FILE_ACTION md)
     = Inr \<lparr>driveMetadata = (driveMetadata st)(id' md \<mapsto> md),
            children =
              fold (\<lambda>r c. c(r \<mapsto> without (c r) [id' md]))
                (case driveMetadata st (id' md) of
                   None \<Rightarrow> []
                 | Some old \<Rightarrow> without (parents old) ps)
                (childrenReducer (children st) (UPDATE_FILE_ACTION md)),
            roots = roots st\<rparr>"
proof (cases "driveMetadata st (id' md)")
  case None
  then show ?thesis
    by (simp add: fileIndexReducer_def combinedFileIndexReducer_def driveMetadataReducer_def
        rootsReducer_def)
next
  case (Some old)
  show ?thesis
  proof (cases "without (parents old) ps = []")
    case True
    with Some assms show ?thesis
      by (simp add: fileIndexReducer_def combinedFileIndexReducer_def driveMetadataReducer_def
          rootsReducer_def Let_def)
  next
    case False
    then have "parents old \<noteq> Some ps"
      by (auto simp: without_def orEmpty_def)
    with False Some assms show ?thesis
      by (simp add: fileIndexReducer_def combinedFileIndexReducer_def driveMetadataReducer_def
          rootsReducer_def Let_def)
  qed
qed

text \<open>
  Claim C10 says that, from any state, the id \<open>i\<close> of the updated file is a member of
  \<open>children[p]\<close> exactly once for every new parent \<open>p\<close>. The reducer adds \<open>i\<close> where it is
  missing and never removes a second occurrence: from a state in which \<open>children[p]\<close>
  holds \<open>i\<close> twice, \<open>i\<close> is there twice after the update.
\<close>

theorem update_file_children_counterexample:
  "(case fileIndexReducer Map.empty
           (Some \<lparr>driveMetadata = Map.empty, children = [''p'' \<mapsto> [''i'', ''i'']],
                  roots = Map.empty\<rparr>)
           (UPDATE_FILE_ACTION \<lparr>id' = ''i'', name = ''f'', parents = Some [''p'']\<rparr>) of
      Inl e \<Rightarrow> 0
    | Inr s \<Rightarrow> count_list (orEmpty (children s ''p'')) ''i'') = 2"
  by (simp add: fileIndexReducer_def combinedFileIndexReducer_def driveMetadataReducer_def
      childrenReducer_def rootsReducer_def addUpdatedFileToParent_def orEmpty_def)

text \<open>
  Claim C10, amended: after an update whose metadata, with id \<open>i\<close>, lists its parents,
  \<open>i\<close> is a member of \<open>children[p]\<close> for every listed parent \<open>p\<close>, and exactly once if the
  parents are listed without repetition and \<open>children[p]\<close> held \<open>i\<close> at most once before; and
  for every parent \<open>q\<close> of the metadata stored before that is not among the new parents,
  \<open>i\<close> is no member of \<open>children[q]\<close>.
\<close>

theorem update_file_children:
  assumes "parents md = Some ps"
  shows "\<exists>st'. fileIndexReducer tutorial (Some st) (UPDATE_FILE_ACTION md) = Inr st'
      \<and> (\<forall>p \<in> set ps. id' md \<in> set (orEmpty (children st' p)))
      \<and> (\<forall>p \<in> set ps.
            distinct ps \<and> count_list (orEmpty (children st p)) (id' md) \<le> 1
            \<longrightarrow> count_list (orEmpty (children st' p)) (id' md) = 1)
      \<and> (\<forall>old qs q.
            driveMetadata st (id' md) = Some old \<and> parents old = Some qs
            \<and> q \<in> set qs \<and> q \<notin> set ps
            \<longrightarrow> id' md \<notin> set (orEmpty (children st' q)))"
proof -
  let ?i = "id' md"
  let ?removed = "case driveMetadata st ?i of None \<Rightarrow> [] | Some old \<Rightarrow> without (parents old) ps"
  let ?c1 = "childrenReducer (children st) (UPDATE_FILE_ACTION md)"
  let ?c2 = "fold (\<lambda>r c. c(r \<mapsto> without (c r) [?i])) ?removed ?c1"
  let ?st' = "\<lparr>driveMetadata = (driveMetadata st)(?i \<mapsto> md), children = ?c2, roots = roots st\<rparr>"
  have run: "fileIndexReducer tutorial (Some st) (UPDATE_FILE_ACTION md) = Inr ?st'"
    by (rule fileIndexReducer_update [OF assms])
  have kept: "?c2 p = ?c1 p" if "p \<in> set ps" for p
  proof -
    from that have "p \<notin> set ?removed"
      by (auto simp: without_def split: option.splits)
    then show ?thesis by (rule removeFromParents_other [rotated]) simp
  qed
  have c1: "orEmpty (?c1 p)
      = orEmpty (children st p)
        @ replicate (if ?i \<in> set (orEmpty (children st p)) then 0 else count_list ps p) ?i" for p
    using childrenReducer_update [of "children st" md p] assms by (simp add: orEmpty_Some)
  have member: "?i \<in> set (orEmpty (?c2 p))" if "p \<in> set ps" for p
  proof -
    from that have "count_list ps p \<noteq> 0"
      by (simp add: count_list_0_iff)
    then have "0 < count_list ps p" by simp
    then show ?thesis
      by (simp add: kept [OF that] c1)
  qed
  have once: "count_list (orEmpty (?c2 p)) ?i = 1"
    if "p \<in> set ps" "distinct ps" "count_list (orEmpty (children st p)) ?i \<le> 1" for p
  proof -
    from that(1,2) have "count_list ps p = 1"
      by (simp add: count_list_distinct)
    moreover have "count_list (orEmpty (children st p)) ?i \<noteq> 0"
      if "?i \<in> set (orEmpty (children st p))"
      using that by (simp add: count_list_0_iff)
    moreover have "count_list (orEmpty (children st p)) ?i = 0"
      if "?i \<notin> set (orEmpty (children st p))"
      using that by (simp add: count_list_0_iff)
    ultimately show ?thesis
      using that(3) by (cases "?i \<in> set (orEmpty (children st p))")
        (simp_all add: kept [OF that(1)] c1)
  qed
  have gone: "?i \<notin> set (orEmpty (?c2 q))"
    if "driveMetadata st ?i = Some old" "parents old = Some qs" "q \<in> set qs" "q \<notin> set ps"
    for old qs q
  proof -
    from that have "q \<in> set ?removed"
      by (simp add: without_def orEmpty_Some)
    then show ?thesis by (rule removeFromParents_member [rotated]) simp
  qed
  show ?thesis
    unfolding run using member once gone by auto
qed

theorem update_file_children_witness:
  "parents \<lparr>id' = ''f'', name = ''file'', parents = Some [''b'', ''c'']\<rparr> = Some [''b'', ''c'']
   \<and> (\<exists>st'. fileIndexReducer Map.empty
                (Some \<lparr>driveMetadata =
                          [''f'' \<mapsto> \<lparr>id' = ''f'', name = ''file'', parents = Some [''a'', ''b'']\<rparr>],
                        children = [''a'' \<mapsto> [''f''], ''b'' \<mapsto> [''f'', ''g'']],
                        roots = Map.empty\<rparr>)
                (UPDATE_FILE_ACTION \<lparr>id' = ''f'', name = ''file'', parents = Some [''b'', ''c'']\<rparr>)
              = Inr st'
          \<and> children st' ''a'' = Some []
          \<and> children st' ''b'' = Some [''f'', ''g'']
          \<and> children st' ''c'' = Some [''f''])"
  using update_file_children
    [of "\<lparr>id' = ''f'', name = ''file'', parents = Some [''b'', ''c'']\<rparr>" "[''b'', ''c'']" Map.empty
       "\<lparr>driveMetadata =
            [''f'' \<mapsto> \<lparr>id' = ''f'', name = ''file'', parents = Some [''a'', ''b'']\<rparr>],
          children = [''a'' \<mapsto> [''f''], ''b'' \<mapsto> [''f'', ''g'']],
          roots = Map.empty\<rparr>"]
  by (simp add: fileIndexReducer_def combinedFileIndexReducer_def driveMetadataReducer_def
      childrenReducer_def rootsReducer_def addUpdatedFileToParent_def orEmpty_def without_def)

end
